theory Spec2Isabelle
  imports Main
begin

section \<open>Values of the wrapper\<close>

text \<open>
  The credential object handed to \<open>login\<close>: \<open>{username, password}\<close>.
\<close>

record credential =
  username :: string
  password :: string

text \<open>
  The \<open>userInfo\<close> of a logged-in connection; only its \<open>id\<close> is read
  (\<open>conn.userInfo.id\<close>).
\<close>

record userInfo =
  userId :: string

text \<open>
  A connection object made by \<open>new jsforce.Connection({loginUrl})\<close>. Objects have an
  identity in JavaScript; \<open>handle\<close> is that identity (a fresh number per \<open>new\<close>).
  \<open>instanceUrl\<close>, \<open>accessToken\<close> and \<open>userInfo\<close> are what the vendor's login left
  in the object; each may be \<open>undefined\<close> (\<open>None\<close>).
\<close>

record connection =
  handle :: nat
  loginUrl :: "string option"
  instanceUrl :: "string option"
  accessToken :: "string option"
  userInfo :: "userInfo option"

text \<open>Describe results, query results and save results of the vendor library.\<close>

record metadata =
  objectName :: string
  metaFields :: "string list"

record saveResult =
  success :: bool
  recordId :: string

type_synonym records = "(string \<times> string) list list"

datatype jserror =
    Error string
  | TypeError string
  | ProviderError string

text \<open>
  The values that flow through the cache and the promises. \<open>Inherited n\<close> is the member
  \<open>n\<close> that a plain object literal inherits from \<open>Object.prototype\<close>.
\<close>

datatype jsval =
    Undefined
  | Null
  | Str string
  | Err jserror
  | Credential credential
  | Connection connection
  | SObjects "string list"
  | Fields "string list"
  | Metadata metadata
  | QueryResult "records"
  | SaveResult saveResult
  | Inherited string

text \<open>An \<open>async\<close> function's promise, once settled.\<close>

datatype promise = Resolved jsval | Rejected jsval

section \<open>CacheProvider\<close>

text \<open>
  \<open>private static cacheData = {}\<close>: an object literal used as a dictionary. Its own
  properties are the map; what it inherits is \<open>object_prototype_names\<close>.
  \<open>hasCache\<close> asks \<open>hasOwnProperty\<close>, which sees own properties only, while
  \<open>getCache\<close> reads \<open>this.cacheData[key]\<close>, which falls back to the inherited member
  when the object has no own property of that name. An assignment
  \<open>this.cacheData[key] = data\<close> creates or overwrites an own property. Two names are
  outside this model, and no statement below assigns them: \<open>__proto__\<close>, whose
  assignment replaces the prototype instead of creating an entry, and
  \<open>hasOwnProperty\<close>, whose assignment shadows the method that \<open>hasCache\<close> calls.
\<close>

type_synonym cache = "string \<rightharpoonup> jsval"

definition object_prototype_names :: "string list" where
  "object_prototype_names =
     [''constructor'', ''hasOwnProperty'', ''isPrototypeOf'', ''propertyIsEnumerable'',
      ''toLocaleString'', ''toString'', ''valueOf'', ''__defineGetter__'',
      ''__defineSetter__'', ''__lookupGetter__'', ''__lookupSetter__'', ''__proto__'']"

definition getCache :: "string \<Rightarrow> cache \<Rightarrow> jsval" where
  "getCache key cacheData =
     (case cacheData key of
        Some data \<Rightarrow> data
      | None \<Rightarrow> if key \<in> set object_prototype_names then Inherited key else Undefined)"

definition setCache :: "string \<Rightarrow> jsval \<Rightarrow> cache \<Rightarrow> cache" where
  "setCache key data cacheData = cacheData(key \<mapsto> data)"

definition hasCache :: "string \<Rightarrow> cache \<Rightarrow> bool" where
  "hasCache key cacheData = (cacheData key \<noteq> None)"

definition deleteCache :: "string \<Rightarrow> cache \<Rightarrow> cache" where
  "deleteCache key cacheData =
     (if hasCache key cacheData then cacheData(key := None) else cacheData)"

section \<open>Engine: construction\<close>

record engine =
  defaultLoginUrl :: "string option"

text \<open>
  \<open>String.prototype.toLowerCase\<close>. The constructor only compares the result with
  \<open>production\<close> and \<open>sandbox\<close>; the only characters whose lower-case form is a
  letter of these words are the capitals A to Z, so mapping these decides both
  comparisons as the source does.
\<close>

definition lowerChar :: "char \<Rightarrow> char" where
  "lowerChar c =
     (if (65::nat) \<le> of_char c \<and> (of_char c :: nat) \<le> 90
      then char_of (of_char c + (32::nat)) else c)"

definition toLowerCase :: "string \<Rightarrow> string" where
  "toLowerCase s = map lowerChar s"

definition constructor :: "string \<Rightarrow> jserror + engine" where
  "constructor environment =
     (if toLowerCase environment \<noteq> ''production'' \<and> toLowerCase environment \<noteq> ''sandbox''
      then Inl (Error ''Invalid org type !, your org type should be production or sandbox.'')
      else if toLowerCase environment = ''production''
        then Inr \<lparr>defaultLoginUrl = Some ''https://login.salesforce.com/''\<rparr>
      else if toLowerCase environment = ''sandbox''
        then Inr \<lparr>defaultLoginUrl = Some ''https://test.salesforce.com/''\<rparr>
      else Inr \<lparr>defaultLoginUrl = None\<rparr>)"

section \<open>The vendor library and the process state\<close>

text \<open>
  What \<open>conn.login\<close> does with one request: the error it hands to the callback
  (\<open>loginErr\<close>), the error its returned promise is rejected with
  (\<open>loginRejects\<close>; \<open>None\<close> when the promise is fulfilled), and what it leaves in the
  connection object.
\<close>

record loginOutcome =
  loginErr :: "jserror option"
  loginRejects :: "jserror option"
  sessInstanceUrl :: "string option"
  sessAccessToken :: "string option"
  sessUserInfo :: "userInfo option"

text \<open>
  The payload of a record operation is one record or an array of records, and the
  vendor answers one record with one save result and an array with an array of save
  results.
\<close>

datatype payload =
    Record "(string \<times> string) list"
  | Records "(string \<times> string) list list"

datatype saveAnswer =
    One saveResult
  | Many "saveResult list"

text \<open>
  The vendor library (jsforce) is not part of the repository: it is a parameter. Each
  operation gets the number of requests issued before it, so its answers may change over
  time. A Node-style callback receives either an error or a result:
  \<open>Inl err\<close> stands for \<open>callback(err)\<close> (the result is \<open>undefined\<close>) and
  \<open>Inr res\<close> for \<open>callback(null, res)\<close>. \<open>conn.login\<close> is both called with a
  callback and awaited, so its outcome says what the callback received and whether the
  awaited promise was rejected.
\<close>

record provider =
  conn_login :: "nat \<Rightarrow> string option \<Rightarrow> string option \<Rightarrow> string option \<Rightarrow> loginOutcome"
  conn_describeGlobal :: "nat \<Rightarrow> connection \<Rightarrow> jserror + string list"
  conn_describe :: "nat \<Rightarrow> connection \<Rightarrow> string \<Rightarrow> jserror + metadata"
  conn_query :: "nat \<Rightarrow> connection \<Rightarrow> string \<Rightarrow> jserror + records"
  conn_create :: "nat \<Rightarrow> connection \<Rightarrow> string \<Rightarrow> payload \<Rightarrow> jserror + saveAnswer"
  conn_update :: "nat \<Rightarrow> connection \<Rightarrow> string \<Rightarrow> payload \<Rightarrow> jserror + saveAnswer"
  conn_upsert :: "nat \<Rightarrow> connection \<Rightarrow> string \<Rightarrow> payload \<Rightarrow> string \<Rightarrow> jserror + saveAnswer"
  conn_destroy :: "nat \<Rightarrow> connection \<Rightarrow> string \<Rightarrow> payload \<Rightarrow> jserror + saveAnswer"

text \<open>The requests sent to the vendor library, in order.\<close>

datatype request =
    Connect "string option" "string option" "string option"
  | DescribeGlobal nat
  | Describe nat string
  | Query nat string
  | Create nat string payload
  | Update nat string payload
  | Upsert nat string payload string
  | Destroy nat string payload

text \<open>
  The process: the static \<open>cacheData\<close>, what \<open>console.error\<close> printed, the requests
  sent so far, the next fresh object identity, and the exceptions thrown inside a vendor
  callback after its promise was already settled.
\<close>

record state =
  cacheData :: cache
  console :: "jsval list"
  requests :: "request list"
  nextHandle :: nat
  uncaught :: "jserror list"

section \<open>Engine: login\<close>

text \<open>Reading \<open>credential.username\<close> and \<open>credential.password\<close>.\<close>

fun prop_username :: "jsval \<Rightarrow> jserror + string option" where
  "prop_username Undefined = Inl (TypeError ''Cannot read properties of undefined'')"
| "prop_username Null = Inl (TypeError ''Cannot read properties of null'')"
| "prop_username (Credential c) = Inr (Some (username c))"
| "prop_username _ = Inr None"

fun prop_password :: "jsval \<Rightarrow> string option" where
  "prop_password (Credential c) = Some (password c)"
| "prop_password _ = None"

text \<open>A template literal prints \<open>undefined\<close> for a missing value.\<close>

definition toStr :: "string option \<Rightarrow> string" where
  "toStr x = (case x of Some s \<Rightarrow> s | None \<Rightarrow> ''undefined'')"

text \<open>
  An \<open>async\<close> function runs without interruption up to its first \<open>await\<close>.
  \<open>login_start\<close> is \<open>login\<close> up to \<open>await conn.login(...)\<close>: it either settles
  at once (the TypeError of reading \<open>username\<close>, or the cached session) or sends the
  connect request and suspends.
\<close>

record pendingLogin =
  pendingKey :: string
  pendingConn :: connection
  pendingOut :: loginOutcome

definition login_start ::
  "provider \<Rightarrow> engine \<Rightarrow> jsval \<Rightarrow> state \<Rightarrow> (promise + pendingLogin) \<times> state" where
  "login_start P E cred s =
     (case prop_username cred of
        Inl e \<Rightarrow> (Inl (Rejected (Err e)), s)
      | Inr uname \<Rightarrow>
          let userKey = ''con:'' @ toStr uname;
              s1 = s\<lparr>cacheData := setCache ''currentCredentials'' cred (cacheData s)\<rparr>
          in if \<not> hasCache userKey (cacheData s1) then
               let conn = \<lparr>handle = nextHandle s1, loginUrl = defaultLoginUrl E,
                           instanceUrl = None, accessToken = None, userInfo = None\<rparr>;
                   out = conn_login P (length (requests s1)) (defaultLoginUrl E) uname
                           (prop_password cred);
                   s2 = s1\<lparr>requests := requests s1 @
                                [Connect (defaultLoginUrl E) uname (prop_password cred)],
                           nextHandle := Suc (nextHandle s1)\<rparr>
               in (Inr \<lparr>pendingKey = userKey, pendingConn = conn, pendingOut = out\<rparr>, s2)
             else (Inl (Resolved (getCache userKey (cacheData s1))), s1))"

text \<open>
  \<open>login_finish\<close> is \<open>login\<close> from the \<open>await\<close> on, once the vendor has answered:
  the callback prints the error it received; when the awaited promise is rejected the
  \<open>await\<close> throws (the source has no \<open>try\<close>) and \<open>login\<close> is rejected before
  \<open>setCache\<close>; otherwise the connection is stored and read back.
\<close>

definition login_finish :: "pendingLogin \<Rightarrow> state \<Rightarrow> promise \<times> state" where
  "login_finish pd s =
     (let out = pendingOut pd;
          s1 = s\<lparr>console := console s @
                     (case loginErr out of Some err \<Rightarrow> [Err err] | None \<Rightarrow> [])\<rparr>
      in case loginRejects out of
           Some e \<Rightarrow> (Rejected (Err e), s1)
         | None \<Rightarrow>
             let conn = (pendingConn pd)\<lparr>instanceUrl := sessInstanceUrl out,
                           accessToken := sessAccessToken out,
                           userInfo := sessUserInfo out\<rparr>;
                 s2 = s1\<lparr>cacheData := setCache (pendingKey pd) (Connection conn)
                                        (cacheData s1)\<rparr>
             in (Resolved (getCache (pendingKey pd) (cacheData s2)), s2))"

text \<open>An awaited call of \<open>login\<close>: nothing else runs between its two parts.\<close>

definition login :: "provider \<Rightarrow> engine \<Rightarrow> jsval \<Rightarrow> state \<Rightarrow> promise \<times> state" where
  "login P E cred s =
     (case login_start P E cred s of
        (Inl p, s1) \<Rightarrow> (p, s1)
      | (Inr pd, s1) \<Rightarrow> login_finish pd s1)"

text \<open>
  Two calls of \<open>login\<close> of which the second starts before the first has been awaited,
  as in \<open>Promise.all([engine.login(c1), engine.login(c2)])\<close>; the vendor answers in
  the order of the requests.
\<close>

definition overlapped ::
  "provider \<Rightarrow> engine \<Rightarrow> jsval \<Rightarrow> jsval \<Rightarrow> state \<Rightarrow> promise \<times> promise \<times> state" where
  "overlapped P E cred1 cred2 s =
     (case login_start P E cred1 s of
        (Inl p1, s1) \<Rightarrow>
          (case login P E cred2 s1 of (p2, s2) \<Rightarrow> (p1, p2, s2))
      | (Inr pd1, s1) \<Rightarrow>
          (case login_start P E cred2 s1 of
             (Inl p2, s2) \<Rightarrow>
               (case login_finish pd1 s2 of (p1, s3) \<Rightarrow> (p1, p2, s3))
           | (Inr pd2, s2) \<Rightarrow>
               (case login_finish pd1 s2 of (p1, s3) \<Rightarrow>
                  (case login_finish pd2 s3 of (p2, s4) \<Rightarrow> (p1, p2, s4)))))"

text \<open>
  \<open>getLoginUrl\<close>: the template literal reads \<open>conn.instanceUrl\<close> and
  \<open>conn.accessToken\<close>; on \<open>undefined\<close> or \<open>null\<close> the read throws.
\<close>

definition getLoginUrl :: "provider \<Rightarrow> engine \<Rightarrow> state \<Rightarrow> promise \<times> state" where
  "getLoginUrl P E s =
     (case login P E (getCache ''currentCredentials'' (cacheData s)) s of
        (Rejected r, s1) \<Rightarrow> (Rejected r, s1)
      | (Resolved conn, s1) \<Rightarrow>
          (case conn of
             Undefined \<Rightarrow> (Rejected (Err (TypeError ''Cannot read properties of undefined'')), s1)
           | Null \<Rightarrow> (Rejected (Err (TypeError ''Cannot read properties of null'')), s1)
           | Connection c \<Rightarrow>
               (Resolved (Str (toStr (instanceUrl c) @ ''//secur/frontdoor.jsp?sid='' @
                               toStr (accessToken c))), s1)
           | _ \<Rightarrow> (Resolved (Str (''undefined'' @ ''//secur/frontdoor.jsp?sid='' @ ''undefined'')),
                   s1)))"

section \<open>Engine: describe operations\<close>

text \<open>
  \<open>conn.userInfo.id\<close>: throws a TypeError unless \<open>conn\<close> is a connection whose
  \<open>userInfo\<close> is set.
\<close>

definition conn_userId :: "jsval \<Rightarrow> jserror + connection \<times> string" where
  "conn_userId conn =
     (case conn of
        Connection c \<Rightarrow>
          (case userInfo c of
             Some u \<Rightarrow> Inr (c, userId u)
           | None \<Rightarrow> Inl (TypeError ''Cannot read properties of undefined''))
      | _ \<Rightarrow> Inl (TypeError ''Cannot read properties of undefined''))"

text \<open>
  In the three callbacks \<open>reject(err)\<close> is not followed by \<open>return\<close>: on an error the
  promise is rejected, and the next statement reads a property of the \<open>undefined\<close>
  result and throws inside the callback, before \<open>setCache\<close>.
\<close>

definition getAllObject :: "provider \<Rightarrow> engine \<Rightarrow> state \<Rightarrow> promise \<times> state" where
  "getAllObject P E s =
     (case login P E (getCache ''currentCredentials'' (cacheData s)) s of
        (Rejected r, s1) \<Rightarrow> (Rejected r, s1)
      | (Resolved conn, s1) \<Rightarrow>
          (case conn_userId conn of
             Inl e \<Rightarrow> (Rejected (Err e), s1)
           | Inr (c, uid) \<Rightarrow>
               let objectListKey = ''objectList:'' @ uid in
               if \<not> hasCache objectListKey (cacheData s1) then
                 let s2 = s1\<lparr>requests := requests s1 @ [DescribeGlobal (handle c)]\<rparr> in
                 (case conn_describeGlobal P (length (requests s1)) c of
                    Inl err \<Rightarrow>
                      (Rejected (Err err),
                       s2\<lparr>uncaught := uncaught s2 @
                            [TypeError ''Cannot read properties of undefined'']\<rparr>)
                  | Inr sobjects \<Rightarrow>
                      (Resolved (SObjects sobjects),
                       s2\<lparr>cacheData := setCache objectListKey (SObjects sobjects)
                                          (cacheData s2)\<rparr>))
               else (Resolved (getCache objectListKey (cacheData s1)), s1)))"

definition getAllFields :: "provider \<Rightarrow> engine \<Rightarrow> string \<Rightarrow> state \<Rightarrow> promise \<times> state" where
  "getAllFields P E objName s =
     (case login P E (getCache ''currentCredentials'' (cacheData s)) s of
        (Rejected r, s1) \<Rightarrow> (Rejected r, s1)
      | (Resolved conn, s1) \<Rightarrow>
          (case conn_userId conn of
             Inl e \<Rightarrow> (Rejected (Err e), s1)
           | Inr (c, uid) \<Rightarrow>
               let objectFieldsKey = ''objectFields:'' @ objName @ '':'' @ uid in
               if \<not> hasCache objectFieldsKey (cacheData s1) then
                 let s2 = s1\<lparr>requests := requests s1 @ [Describe (handle c) objName]\<rparr> in
                 (case conn_describe P (length (requests s1)) c objName of
                    Inl err \<Rightarrow>
                      (Rejected (Err err),
                       s2\<lparr>uncaught := uncaught s2 @
                            [TypeError ''Cannot read properties of undefined'']\<rparr>)
                  | Inr meta \<Rightarrow>
                      (Resolved (Fields (metaFields meta)),
                       s2\<lparr>cacheData := setCache objectFieldsKey (Fields (metaFields meta))
                                          (cacheData s2)\<rparr>))
               else (Resolved (getCache objectFieldsKey (cacheData s1)), s1)))"

text \<open>
  In \<open>describeObject\<close> the statement after \<open>reject(err)\<close> is
  \<open>setCache(objectInfoKey, meta)\<close>, which reads no property of \<open>meta\<close>: on
  an error it stores \<open>undefined\<close> under the key.
\<close>

definition describeObject :: "provider \<Rightarrow> engine \<Rightarrow> string \<Rightarrow> state \<Rightarrow> promise \<times> state" where
  "describeObject P E objName s =
     (case login P E (getCache ''currentCredentials'' (cacheData s)) s of
        (Rejected r, s1) \<Rightarrow> (Rejected r, s1)
      | (Resolved conn, s1) \<Rightarrow>
          (case conn_userId conn of
             Inl e \<Rightarrow> (Rejected (Err e), s1)
           | Inr (c, uid) \<Rightarrow>
               let objectInfoKey = ''objectInfo:'' @ objName @ '':'' @ uid in
               if \<not> hasCache objectInfoKey (cacheData s1) then
                 let s2 = s1\<lparr>requests := requests s1 @ [Describe (handle c) objName]\<rparr> in
                 (case conn_describe P (length (requests s1)) c objName of
                    Inl err \<Rightarrow>
                      (Rejected (Err err),
                       s2\<lparr>cacheData := setCache objectInfoKey Undefined (cacheData s2)\<rparr>)
                  | Inr meta \<Rightarrow>
                      (Resolved (Metadata meta),
                       s2\<lparr>cacheData := setCache objectInfoKey (Metadata meta)
                                          (cacheData s2)\<rparr>))
               else (Resolved (getCache objectInfoKey (cacheData s1)), s1)))"

section \<open>Engine: query and record operations\<close>

text \<open>
  \<open>conn.query(...)\<close> and \<open>conn.sobject(...)\<close> are method calls: they throw a
  TypeError inside the promise executor, which rejects the promise, unless \<open>conn\<close> is
  a connection.
\<close>

definition as_connection :: "jsval \<Rightarrow> jserror + connection" where
  "as_connection conn =
     (case conn of
        Connection c \<Rightarrow> Inr c
      | Undefined \<Rightarrow> Inl (TypeError ''Cannot read properties of undefined'')
      | Null \<Rightarrow> Inl (TypeError ''Cannot read properties of null'')
      | _ \<Rightarrow> Inl (TypeError ''is not a function''))"

text \<open>
  \<open>reject(console.error(err))\<close>: \<open>console.error\<close> prints its argument and returns
  \<open>undefined\<close>, which becomes the rejection value.
\<close>

definition query :: "provider \<Rightarrow> engine \<Rightarrow> string \<Rightarrow> state \<Rightarrow> promise \<times> state" where
  "query P E soql s =
     (case login P E (getCache ''currentCredentials'' (cacheData s)) s of
        (Rejected r, s1) \<Rightarrow> (Rejected r, s1)
      | (Resolved conn, s1) \<Rightarrow>
          (case as_connection conn of
             Inl e \<Rightarrow> (Rejected (Err e), s1)
           | Inr c \<Rightarrow>
               let s2 = s1\<lparr>requests := requests s1 @ [Query (handle c) soql]\<rparr> in
               (case conn_query P (length (requests s1)) c soql of
                  Inl err \<Rightarrow> (Rejected Undefined, s2\<lparr>console := console s2 @ [Err err]\<rparr>)
                | Inr result \<Rightarrow> (Resolved (QueryResult result), s2))))"

text \<open>
  The callback of the four record operations:
  \<open>if (err || !ret.success) { reject(err); } resolve(ret);\<close>. A promise settles once,
  so the \<open>resolve\<close> after a \<open>reject\<close> has no effect. When the vendor passes no error,
  \<open>err\<close> is \<open>null\<close>, and that is the rejection value. For one save result
  \<open>ret.success\<close> is its flag; an array of save results has no property
  \<open>success\<close>, so \<open>!ret.success\<close> is true whatever the results in it say.
\<close>

definition saveCallback :: "jserror + saveAnswer \<Rightarrow> promise" where
  "saveCallback answer =
     (case answer of
        Inl err \<Rightarrow> Rejected (Err err)
      | Inr (One ret) \<Rightarrow> if \<not> success ret then Rejected Null else Resolved (SaveResult ret)
      | Inr (Many rets) \<Rightarrow> Rejected Null)"

definition insert_records ::
  "provider \<Rightarrow> engine \<Rightarrow> payload \<Rightarrow> string \<Rightarrow> state \<Rightarrow> promise \<times> state" where
  "insert_records P E recs object s =
     (case login P E (getCache ''currentCredentials'' (cacheData s)) s of
        (Rejected r, s1) \<Rightarrow> (Rejected r, s1)
      | (Resolved conn, s1) \<Rightarrow>
          (case as_connection conn of
             Inl e \<Rightarrow> (Rejected (Err e), s1)
           | Inr c \<Rightarrow>
               (saveCallback (conn_create P (length (requests s1)) c object recs),
                s1\<lparr>requests := requests s1 @ [Create (handle c) object recs]\<rparr>)))"

definition update ::
  "provider \<Rightarrow> engine \<Rightarrow> payload \<Rightarrow> string \<Rightarrow> state \<Rightarrow> promise \<times> state" where
  "update P E recs object s =
     (case login P E (getCache ''currentCredentials'' (cacheData s)) s of
        (Rejected r, s1) \<Rightarrow> (Rejected r, s1)
      | (Resolved conn, s1) \<Rightarrow>
          (case as_connection conn of
             Inl e \<Rightarrow> (Rejected (Err e), s1)
           | Inr c \<Rightarrow>
               (saveCallback (conn_update P (length (requests s1)) c object recs),
                s1\<lparr>requests := requests s1 @ [Update (handle c) object recs]\<rparr>)))"

definition upsert ::
  "provider \<Rightarrow> engine \<Rightarrow> payload \<Rightarrow> string \<Rightarrow> string \<Rightarrow> state \<Rightarrow> promise \<times> state" where
  "upsert P E recs object extId s =
     (case login P E (getCache ''currentCredentials'' (cacheData s)) s of
        (Rejected r, s1) \<Rightarrow> (Rejected r, s1)
      | (Resolved conn, s1) \<Rightarrow>
          (case as_connection conn of
             Inl e \<Rightarrow> (Rejected (Err e), s1)
           | Inr c \<Rightarrow>
               (saveCallback (conn_upsert P (length (requests s1)) c object recs extId),
                s1\<lparr>requests := requests s1 @ [Upsert (handle c) object recs extId]\<rparr>)))"

definition delete ::
  "provider \<Rightarrow> engine \<Rightarrow> payload \<Rightarrow> string \<Rightarrow> state \<Rightarrow> promise \<times> state" where
  "delete P E recs object s =
     (case login P E (getCache ''currentCredentials'' (cacheData s)) s of
        (Rejected r, s1) \<Rightarrow> (Rejected r, s1)
      | (Resolved conn, s1) \<Rightarrow>
          (case as_connection conn of
             Inl e \<Rightarrow> (Rejected (Err e), s1)
           | Inr c \<Rightarrow>
               (saveCallback (conn_destroy P (length (requests s1)) c object recs),
                s1\<lparr>requests := requests s1 @ [Destroy (handle c) object recs]\<rparr>)))"

section \<open>Sequences of calls\<close>

datatype call =
    Login jsval
  | GetLoginUrl
  | GetAllObject
  | GetAllFields string
  | DescribeObject string
  | QueryCall string
  | Insert payload string
  | UpdateCall payload string
  | UpsertCall payload string string
  | Delete payload string

fun exec :: "provider \<Rightarrow> engine \<Rightarrow> call \<Rightarrow> state \<Rightarrow> promise \<times> state" where
  "exec P E (Login cred) s = login P E cred s"
| "exec P E GetLoginUrl s = getLoginUrl P E s"
| "exec P E GetAllObject s = getAllObject P E s"
| "exec P E (GetAllFields n) s = getAllFields P E n s"
| "exec P E (DescribeObject n) s = describeObject P E n s"
| "exec P E (QueryCall q) s = query P E q s"
| "exec P E (Insert r ob) s = insert_records P E r ob s"
| "exec P E (UpdateCall r ob) s = update P E r ob s"
| "exec P E (UpsertCall r ob x) s = upsert P E r ob x s"
| "exec P E (Delete r ob) s = delete P E r ob s"

text \<open>The state after a sequence of awaited calls, one after the other.\<close>

fun run :: "provider \<Rightarrow> engine \<Rightarrow> call list \<Rightarrow> state \<Rightarrow> state" where
  "run P E [] s = s"
| "run P E (c # cs) s = run P E cs (snd (exec P E c s))"

text \<open>The process at its start: nothing cached, nothing sent.\<close>

definition initial :: state where
  "initial = \<lparr>cacheData = Map.empty, console = [], requests = [], nextHandle = 0,
              uncaught = []\<rparr>"

fun is_connect :: "request \<Rightarrow> bool" where
  "is_connect (Connect u n p) = True"
| "is_connect _ = False"

fun is_describe :: "request \<Rightarrow> bool" where
  "is_describe (DescribeGlobal h) = True"
| "is_describe (Describe h n) = True"
| "is_describe _ = False"

fun is_query :: "request \<Rightarrow> bool" where
  "is_query (Query h q) = True"
| "is_query _ = False"

text \<open>
  The session that a call without an explicit credential will use, when it is already
  cached: the value stored under \<open>con:username\<close> for the credential stored under
  \<open>currentCredentials\<close>.
\<close>

definition session_of :: "state \<Rightarrow> jsval option" where
  "session_of s =
     (case cacheData s ''currentCredentials'' of
        None \<Rightarrow> None
      | Some cred \<Rightarrow>
          (case prop_username cred of
             Inl e \<Rightarrow> None
           | Inr uname \<Rightarrow> cacheData s (''con:'' @ toStr uname)))"

text \<open>How many connect requests in a trace carry the user name \<open>u\<close>.\<close>

fun connect_for :: "string option \<Rightarrow> request \<Rightarrow> bool" where
  "connect_for u (Connect url u' p) = (u' = u)"
| "connect_for u _ = False"

definition connects_for :: "string option \<Rightarrow> request list \<Rightarrow> nat" where
  "connects_for u rs = length (filter (connect_for u) rs)"

section \<open>Example engines and vendor answers\<close>

definition prodEngine :: engine where
  "prodEngine = \<lparr>defaultLoginUrl = Some ''https://login.salesforce.com/''\<rparr>"

definition alice :: credential where
  "alice = \<lparr>username = ''a'', password = ''p''\<rparr>"

definition aliceWrong :: credential where
  "aliceWrong = \<lparr>username = ''a'', password = ''WRONG''\<rparr>"

definition okSave :: saveResult where
  "okSave = \<lparr>success = True, recordId = ''001''\<rparr>"

definition badSave :: saveResult where
  "badSave = \<lparr>success = False, recordId = []\<rparr>"

definition accountMeta :: metadata where
  "accountMeta = \<lparr>objectName = ''Account'', metaFields = [''Id'', ''Name'']\<rparr>"

text \<open>
  The vendor's answer to a record operation in which every record is saved: one result
  for one record, an array of results for an array.
\<close>

definition saved :: "payload \<Rightarrow> saveAnswer" where
  "saved recs = (case recs of Record r \<Rightarrow> One okSave | Records rs \<Rightarrow> Many (map (\<lambda>r. okSave) rs))"

definition refused :: "payload \<Rightarrow> saveAnswer" where
  "refused recs = (case recs of Record r \<Rightarrow> One badSave | Records rs \<Rightarrow> Many (map (\<lambda>r. badSave) rs))"

text \<open>A vendor that logs every user in and answers every request.\<close>

definition okProvider :: provider where
  "okProvider =
     \<lparr>conn_login = (\<lambda>t url u p.
         \<lparr>loginErr = None, loginRejects = None,
          sessInstanceUrl = Some ''https://na1.salesforce.com'',
          sessAccessToken = Some ''tok'', sessUserInfo = Some \<lparr>userId = ''005''\<rparr>\<rparr>),
      conn_describeGlobal = (\<lambda>t c. Inr [''Account'', ''Contact'']),
      conn_describe = (\<lambda>t c n. Inr accountMeta),
      conn_query = (\<lambda>t c q. Inr []),
      conn_create = (\<lambda>t c ob r. Inr (saved r)),
      conn_update = (\<lambda>t c ob r. Inr (saved r)),
      conn_upsert = (\<lambda>t c ob r x. Inr (saved r)),
      conn_destroy = (\<lambda>t c ob r. Inr (saved r))\<rparr>"

text \<open>
  A vendor that refuses every login, handing the error to the callback and rejecting the
  promise that \<open>conn.login\<close> returns, and that reports an error for every request.
\<close>

definition failingProvider :: provider where
  "failingProvider =
     \<lparr>conn_login = (\<lambda>t url u p.
         \<lparr>loginErr = Some (ProviderError ''INVALID_LOGIN''),
          loginRejects = Some (ProviderError ''INVALID_LOGIN''),
          sessInstanceUrl = None, sessAccessToken = None, sessUserInfo = None\<rparr>),
      conn_describeGlobal = (\<lambda>t c. Inl (ProviderError ''down'')),
      conn_describe = (\<lambda>t c n. Inl (ProviderError ''down'')),
      conn_query = (\<lambda>t c q. Inl (ProviderError ''down'')),
      conn_create = (\<lambda>t c ob r. Inl (ProviderError ''down'')),
      conn_update = (\<lambda>t c ob r. Inl (ProviderError ''down'')),
      conn_upsert = (\<lambda>t c ob r x. Inl (ProviderError ''down'')),
      conn_destroy = (\<lambda>t c ob r. Inl (ProviderError ''down''))\<rparr>"

text \<open>
  A vendor that refuses every login and tells the callback only: the promise that
  \<open>conn.login\<close> returns is fulfilled.
\<close>

definition callbackProvider :: provider where
  "callbackProvider =
     \<lparr>conn_login = (\<lambda>t url u p.
         \<lparr>loginErr = Some (ProviderError ''INVALID_LOGIN''), loginRejects = None,
          sessInstanceUrl = None, sessAccessToken = None, sessUserInfo = None\<rparr>),
      conn_describeGlobal = (\<lambda>t c. Inl (ProviderError ''down'')),
      conn_describe = (\<lambda>t c n. Inl (ProviderError ''down'')),
      conn_query = (\<lambda>t c q. Inl (ProviderError ''down'')),
      conn_create = (\<lambda>t c ob r. Inl (ProviderError ''down'')),
      conn_update = (\<lambda>t c ob r. Inl (ProviderError ''down'')),
      conn_upsert = (\<lambda>t c ob r x. Inl (ProviderError ''down'')),
      conn_destroy = (\<lambda>t c ob r. Inl (ProviderError ''down''))\<rparr>"

text \<open>
  A vendor that logs every user in, reports an error for every describe and query, and
  answers every record operation with \<open>success = false\<close> and no error.
\<close>

definition refusingProvider :: provider where
  "refusingProvider =
     \<lparr>conn_login = (\<lambda>t url u p.
         \<lparr>loginErr = None, loginRejects = None,
          sessInstanceUrl = Some ''https://na1.salesforce.com'',
          sessAccessToken = Some ''tok'', sessUserInfo = Some \<lparr>userId = ''005''\<rparr>\<rparr>),
      conn_describeGlobal = (\<lambda>t c. Inl (ProviderError ''down'')),
      conn_describe = (\<lambda>t c n. Inl (ProviderError ''down'')),
      conn_query = (\<lambda>t c q. Inl (ProviderError ''MALFORMED_QUERY'')),
      conn_create = (\<lambda>t c ob r. Inr (refused r)),
      conn_update = (\<lambda>t c ob r. Inr (refused r)),
      conn_upsert = (\<lambda>t c ob r x. Inr (refused r)),
      conn_destroy = (\<lambda>t c ob r. Inr (refused r))\<rparr>"

text \<open>The connection and the process state after \<open>alice\<close> has logged in.\<close>

definition aliceConn :: connection where
  "aliceConn = \<lparr>handle = 0, loginUrl = Some ''https://login.salesforce.com/'',
     instanceUrl = Some ''https://na1.salesforce.com'', accessToken = Some ''tok'',
     userInfo = Some \<lparr>userId = ''005''\<rparr>\<rparr>"

definition loggedIn :: state where
  "loggedIn = \<lparr>cacheData = [''currentCredentials'' \<mapsto> Credential alice,
                              ''con:a'' \<mapsto> Connection aliceConn],
     console = [],
     requests = [Connect (Some ''https://login.salesforce.com/'') (Some ''a'') (Some ''p'')],
     nextHandle = 1, uncaught = []\<rparr>"

section \<open>Basic facts about the cache\<close>

lemma hasCache_setCache: "hasCache k (setCache k' v c) = (k = k' \<or> hasCache k c)"
  by (simp add: hasCache_def setCache_def)

lemma getCache_setCache_same: "getCache k (setCache k v c) = v"
  by (simp add: getCache_def setCache_def)

lemma getCache_setCache_other: "k \<noteq> k' \<Longrightarrow> getCache k (setCache k' v c) = getCache k c"
  by (simp add: getCache_def setCache_def)

lemma setCache_apply: "setCache k' v c k = (if k = k' then Some v else c k)"
  by (simp add: setCache_def)

lemma hasCache_deleteCache: "hasCache k (deleteCache k' c) = (k \<noteq> k' \<and> hasCache k c)"
  by (auto simp add: hasCache_def deleteCache_def)

lemma getCache_deleteCache:
  "k \<notin> set object_prototype_names \<Longrightarrow> getCache k (deleteCache k c) = Undefined"
  by (simp add: getCache_def deleteCache_def hasCache_def split: option.splits)

lemma deleteCache_absent: "\<not> hasCache k c \<Longrightarrow> deleteCache k c = c"
  by (simp add: deleteCache_def)

lemma toLowerCase_Production: "toLowerCase ''Production'' = ''production''"
  by code_simp

lemma toLowerCase_staging: "toLowerCase ''staging'' = ''staging''"
  by code_simp

section \<open>Claims about the constructor and the cache\<close>

text \<open>
  C2. Constructing the engine with the string \<open>e\<close> succeeds exactly when
  \<open>e\<close> in lower case is \<open>production\<close> or \<open>sandbox\<close>. On success the login URL is
  one of two fixed URLs: the production one for \<open>production\<close>, the sandbox one for
  \<open>sandbox\<close>. Any other string fails with the invalid-org-type error. The constructor
  is a function of the string alone: it reads and writes neither the cache nor the
  vendor library.
\<close>

theorem constructor_environment:
  "((\<exists>E. constructor e = Inr E) \<longleftrightarrow>
      toLowerCase e = ''production'' \<or> toLowerCase e = ''sandbox'') \<and>
   (toLowerCase e = ''production'' \<longrightarrow>
      constructor e = Inr \<lparr>defaultLoginUrl = Some ''https://login.salesforce.com/''\<rparr>) \<and>
   (toLowerCase e = ''sandbox'' \<longrightarrow>
      constructor e = Inr \<lparr>defaultLoginUrl = Some ''https://test.salesforce.com/''\<rparr>) \<and>
   (toLowerCase e \<noteq> ''production'' \<and> toLowerCase e \<noteq> ''sandbox'' \<longrightarrow>
      constructor e =
        Inl (Error ''Invalid org type !, your org type should be production or sandbox.''))"
  by (simp add: constructor_def)

theorem constructor_environment_witness:
  "toLowerCase ''Production'' = ''production'' \<and>
   constructor ''Production'' = Inr \<lparr>defaultLoginUrl = Some ''https://login.salesforce.com/''\<rparr> \<and>
   toLowerCase ''staging'' \<noteq> ''production'' \<and> toLowerCase ''staging'' \<noteq> ''sandbox'' \<and>
   constructor ''staging'' =
     Inl (Error ''Invalid org type !, your org type should be production or sandbox.'')"
  using constructor_environment [of "''Production''"] constructor_environment [of "''staging''"]
  by (simp add: toLowerCase_Production toLowerCase_staging)

text \<open>
  C8. The claim says that after \<open>deleteCache(k)\<close>, \<open>getCache(k)\<close> returns
  \<open>undefined\<close> for every key. For the key \<open>toString\<close> it does not: after a set and
  a delete \<open>hasCache\<close> is false, and \<open>getCache\<close> returns the function that the
  cache object inherits, as it already does before any set.
\<close>

theorem getCache_after_delete_inherited:
  "\<not> hasCache ''toString'' (deleteCache ''toString'' (setCache ''toString'' (Str ''v'') Map.empty)) \<and>
   getCache ''toString'' (deleteCache ''toString'' (setCache ''toString'' (Str ''v'') Map.empty))
     = Inherited ''toString'' \<and>
   getCache ''toString'' Map.empty \<noteq> Undefined"
  by (simp add: hasCache_def deleteCache_def setCache_def getCache_def object_prototype_names_def)

section \<open>Login: what it keeps and what it sends\<close>

lemmas login_defs = login_def login_start_def login_finish_def

lemma login_miss:
  assumes "\<not> hasCache (''con:'' @ username c) (cacheData s)"
  shows "login P E (Credential c) s =
     (let out = conn_login P (length (requests s)) (defaultLoginUrl E) (Some (username c))
                  (Some (password c));
          conn = \<lparr>handle = nextHandle s, loginUrl = defaultLoginUrl E,
                  instanceUrl = sessInstanceUrl out, accessToken = sessAccessToken out,
                  userInfo = sessUserInfo out\<rparr>;
          s2 = s\<lparr>cacheData := setCache ''currentCredentials'' (Credential c) (cacheData s),
                 requests := requests s @
                   [Connect (defaultLoginUrl E) (Some (username c)) (Some (password c))],
                 nextHandle := Suc (nextHandle s),
                 console := console s @
                   (case loginErr out of Some err \<Rightarrow> [Err err] | None \<Rightarrow> [])\<rparr>
      in case loginRejects out of
           Some e \<Rightarrow> (Rejected (Err e), s2)
         | None \<Rightarrow>
             (Resolved (Connection conn),
              s2\<lparr>cacheData := setCache (''con:'' @ username c) (Connection conn)
                     (setCache ''currentCredentials'' (Credential c) (cacheData s))\<rparr>))"
  using assms
  by (simp add: login_defs Let_def toStr_def hasCache_setCache getCache_setCache_same
        split: option.splits)

lemma login_keeps:
  "k \<noteq> ''currentCredentials'' \<Longrightarrow> cacheData s k = Some v \<Longrightarrow>
   cacheData (snd (login P E cred s)) k = Some v"
  by (auto simp: login_defs Let_def setCache_apply hasCache_def split: sum.splits option.splits)

lemma connects_for_append:
  "connects_for u (rs @ [r]) = connects_for u rs + (if connect_for u r then 1 else 0)"
  by (simp add: connects_for_def)

lemma login_no_connect:
  "hasCache (''con:'' @ toStr u) (cacheData s) \<Longrightarrow>
   connects_for u (requests (snd (login P E cred s))) = connects_for u (requests s)"
  by (auto simp: login_defs Let_def hasCache_setCache connects_for_append
        split: sum.splits option.splits)

lemmas op_defs = getLoginUrl_def getAllObject_def getAllFields_def describeObject_def
  query_def insert_records_def update_def upsert_def delete_def

lemma exec_tail:
  "\<exists>cred. (\<forall>u. connects_for u (requests (snd (exec P E c s))) =
                 connects_for u (requests (snd (login P E cred s)))) \<and>
          (\<forall>k. cacheData (snd (login P E cred s)) k \<noteq> None \<longrightarrow>
                 cacheData (snd (exec P E c s)) k = cacheData (snd (login P E cred s)) k)"
proof (cases c)
  case (Login cred)
  then show ?thesis by auto
next
  case GetLoginUrl
  show ?thesis
    apply (rule exI [of _ "getCache ''currentCredentials'' (cacheData s)"])
    apply (cases "login P E (getCache ''currentCredentials'' (cacheData s)) s")
    apply (auto simp: GetLoginUrl op_defs split: promise.splits jsval.splits)
    done
next
  case GetAllObject
  show ?thesis
    apply (rule exI [of _ "getCache ''currentCredentials'' (cacheData s)"])
    apply (cases "login P E (getCache ''currentCredentials'' (cacheData s)) s")
    apply (auto simp: GetAllObject op_defs Let_def connects_for_append setCache_apply hasCache_def
           split: promise.splits sum.splits)
    done
next
  case (GetAllFields n)
  show ?thesis
    apply (rule exI [of _ "getCache ''currentCredentials'' (cacheData s)"])
    apply (cases "login P E (getCache ''currentCredentials'' (cacheData s)) s")
    apply (auto simp: GetAllFields op_defs Let_def connects_for_append setCache_apply hasCache_def
           split: promise.splits sum.splits)
    done
next
  case (DescribeObject n)
  show ?thesis
    apply (rule exI [of _ "getCache ''currentCredentials'' (cacheData s)"])
    apply (cases "login P E (getCache ''currentCredentials'' (cacheData s)) s")
    apply (auto simp: DescribeObject op_defs Let_def connects_for_append setCache_apply hasCache_def
           split: promise.splits sum.splits)
    done
next
  case (QueryCall q)
  show ?thesis
    apply (rule exI [of _ "getCache ''currentCredentials'' (cacheData s)"])
    apply (cases "login P E (getCache ''currentCredentials'' (cacheData s)) s")
    apply (auto simp: QueryCall op_defs Let_def connects_for_append
           split: promise.splits sum.splits)
    done
next
  case (Insert r ob)
  show ?thesis
    apply (rule exI [of _ "getCache ''currentCredentials'' (cacheData s)"])
    apply (cases "login P E (getCache ''currentCredentials'' (cacheData s)) s")
    apply (auto simp: Insert op_defs Let_def connects_for_append
           split: promise.splits sum.splits)
    done
next
  case (UpdateCall r ob)
  show ?thesis
    apply (rule exI [of _ "getCache ''currentCredentials'' (cacheData s)"])
    apply (cases "login P E (getCache ''currentCredentials'' (cacheData s)) s")
    apply (auto simp: UpdateCall op_defs Let_def connects_for_append
           split: promise.splits sum.splits)
    done
next
  case (UpsertCall r ob x)
  show ?thesis
    apply (rule exI [of _ "getCache ''currentCredentials'' (cacheData s)"])
    apply (cases "login P E (getCache ''currentCredentials'' (cacheData s)) s")
    apply (auto simp: UpsertCall op_defs Let_def connects_for_append
           split: promise.splits sum.splits)
    done
next
  case (Delete r ob)
  show ?thesis
    apply (rule exI [of _ "getCache ''currentCredentials'' (cacheData s)"])
    apply (cases "login P E (getCache ''currentCredentials'' (cacheData s)) s")
    apply (auto simp: Delete op_defs Let_def connects_for_append
           split: promise.splits sum.splits)
    done
qed


lemma exec_keeps:
  assumes "k \<noteq> ''currentCredentials''" and "cacheData s k = Some v"
  shows "cacheData (snd (exec P E c s)) k = Some v"
proof -
  obtain cred where
    T: "\<forall>k. cacheData (snd (login P E cred s)) k \<noteq> None \<longrightarrow>
           cacheData (snd (exec P E c s)) k = cacheData (snd (login P E cred s)) k"
    using exec_tail [of P E c s] by blast
  have "cacheData (snd (login P E cred s)) k = Some v"
    using assms by (rule login_keeps)
  with T show ?thesis by simp
qed

lemma run_keeps:
  assumes "k \<noteq> ''currentCredentials''"
  shows "cacheData s k = Some v \<Longrightarrow> cacheData (run P E cs s) k = Some v"
proof (induction cs arbitrary: s)
  case Nil
  then show ?case by simp
next
  case (Cons c cs)
  have "cacheData (snd (exec P E c s)) k = Some v"
    using assms Cons.prems by (rule exec_keeps)
  then show ?case using Cons.IH by simp
qed

lemma exec_no_connect:
  assumes "hasCache (''con:'' @ toStr u) (cacheData s)"
  shows "connects_for u (requests (snd (exec P E c s))) = connects_for u (requests s)"
proof -
  obtain cred where
    T: "\<forall>u. connects_for u (requests (snd (exec P E c s))) =
              connects_for u (requests (snd (login P E cred s)))"
    using exec_tail [of P E c s] by blast
  show ?thesis using T login_no_connect [OF assms] by simp
qed

lemma run_no_connect:
  "cacheData s (''con:'' @ toStr u) = Some v \<Longrightarrow>
   connects_for u (requests (run P E cs s)) = connects_for u (requests s)"
proof (induction cs arbitrary: s)
  case Nil
  then show ?case by simp
next
  case (Cons c cs)
  have K: "cacheData (snd (exec P E c s)) (''con:'' @ toStr u) = Some v"
    using Cons.prems by (intro exec_keeps) simp_all
  have H: "hasCache (''con:'' @ toStr u) (cacheData s)"
    using Cons.prems by (simp add: hasCache_def)
  show ?case
    using Cons.IH [OF K] exec_no_connect [OF H] by simp
qed

lemma login_result_cached:
  "login P E (Credential c) s = (Resolved v, s1) \<Longrightarrow>
   cacheData s1 (''con:'' @ username c) = Some v"
  by (auto simp: login_defs Let_def toStr_def hasCache_setCache getCache_setCache_same
        getCache_setCache_other setCache_apply getCache_def hasCache_def
        split: if_splits option.splits)

lemma login_cached:
  assumes "cacheData s (''con:'' @ username c) = Some v"
  shows "login P E (Credential c) s =
     (Resolved v, s\<lparr>cacheData := setCache ''currentCredentials'' (Credential c) (cacheData s)\<rparr>)"
  using assms
  by (simp add: login_defs Let_def toStr_def hasCache_def setCache_apply getCache_def)

section \<open>Claims about login\<close>

text \<open>
  C1, as stated, fails in two ways. When the promise of \<open>conn.login\<close> is rejected,
  \<open>login\<close> stores nothing, so two calls with the same user name send two connect
  requests and no handle is shared. And when the second call starts before the first
  has been awaited, both find the key absent: two connect requests are sent and the two
  calls return different connection objects.
\<close>

theorem login_connects_twice:
  "connects_for (Some ''a'')
     (requests (run failingProvider prodEngine
        [Login (Credential alice), Login (Credential aliceWrong)] initial)) = 2 \<and>
   \<not> hasCache ''con:a''
     (cacheData (run failingProvider prodEngine
        [Login (Credential alice), Login (Credential aliceWrong)] initial)) \<and>
   fst (overlapped okProvider prodEngine (Credential alice) (Credential aliceWrong) initial) =
     Resolved (Connection aliceConn) \<and>
   fst (snd (overlapped okProvider prodEngine (Credential alice) (Credential aliceWrong)
     initial)) = Resolved (Connection (aliceConn\<lparr>handle := 1\<rparr>)) \<and>
   connects_for (Some ''a'')
     (requests (snd (snd (overlapped okProvider prodEngine (Credential alice)
        (Credential aliceWrong) initial)))) = 2"
  by (simp add: login_defs overlapped_def Let_def toStr_def hasCache_def setCache_def
        getCache_def failingProvider_def okProvider_def prodEngine_def alice_def aliceWrong_def
        initial_def aliceConn_def connects_for_def)

text \<open>
  C1, as amended, for calls that are awaited one after the other. When \<open>login(c)\<close>
  has resolved with \<open>v\<close>: \<open>v\<close> is stored under \<open>con:username\<close>; if nothing was
  stored there before, the call sent exactly one connect request and \<open>v\<close> is the
  connection object it made, and otherwise it sent none and \<open>v\<close> is what was stored.
  Every later \<open>login(c')\<close> with the same user name, whatever its password and whatever
  engine calls ran in between, resolves with the same \<open>v\<close> and changes nothing but
  \<open>currentCredentials\<close>, so it sends no request; and no call in between sends a
  connect request for that user name.
\<close>

theorem login_memoized:
  assumes "username c' = username c"
    and "login P E (Credential c) s = (Resolved v, s1)"
  shows "cacheData s1 (''con:'' @ username c) = Some v \<and>
         (\<not> hasCache (''con:'' @ username c) (cacheData s) \<longrightarrow>
            requests s1 = requests s @
              [Connect (defaultLoginUrl E) (Some (username c)) (Some (password c))] \<and>
            (\<exists>conn. v = Connection conn \<and> handle conn = nextHandle s)) \<and>
         (hasCache (''con:'' @ username c) (cacheData s) \<longrightarrow>
            requests s1 = requests s \<and>
            v = getCache (''con:'' @ username c) (cacheData s)) \<and>
         login P E (Credential c') (run P E cs s1) =
           (Resolved v,
            (run P E cs s1)\<lparr>cacheData := setCache ''currentCredentials'' (Credential c')
               (cacheData (run P E cs s1))\<rparr>) \<and>
         connects_for (Some (username c)) (requests (run P E cs s1)) =
           connects_for (Some (username c)) (requests s1)"
proof (intro conjI impI)
  show V: "cacheData s1 (''con:'' @ username c) = Some v"
    using assms(2) by (rule login_result_cached)
  have "cacheData (run P E cs s1) (''con:'' @ username c) = Some v"
    using V by (intro run_keeps) simp_all
  then have "cacheData (run P E cs s1) (''con:'' @ username c') = Some v"
    using assms(1) by simp
  then show "login P E (Credential c') (run P E cs s1) =
           (Resolved v,
            (run P E cs s1)\<lparr>cacheData := setCache ''currentCredentials'' (Credential c')
               (cacheData (run P E cs s1))\<rparr>)"
    by (rule login_cached)
  have "cacheData s1 (''con:'' @ toStr (Some (username c))) = Some v"
    using V by (simp add: toStr_def)
  then show "connects_for (Some (username c)) (requests (run P E cs s1)) =
           connects_for (Some (username c)) (requests s1)"
    by (rule run_no_connect)
next
  assume M: "\<not> hasCache (''con:'' @ username c) (cacheData s)"
  show "requests s1 = requests s @
              [Connect (defaultLoginUrl E) (Some (username c)) (Some (password c))]"
    using assms(2) by (auto simp: login_miss [OF M] Let_def split: option.splits)
  show "\<exists>conn. v = Connection conn \<and> handle conn = nextHandle s"
    using assms(2) by (auto simp: login_miss [OF M] Let_def split: option.splits)
next
  assume H: "hasCache (''con:'' @ username c) (cacheData s)"
  then obtain w where W: "cacheData s (''con:'' @ username c) = Some w"
    by (auto simp: hasCache_def)
  have G: "getCache (''con:'' @ username c) (cacheData s) = w"
    using W by (simp add: getCache_def)
  show "requests s1 = requests s"
    using assms(2) by (auto simp: login_cached [OF W])
  show "v = getCache (''con:'' @ username c) (cacheData s)"
    using assms(2) G by (auto simp: login_cached [OF W])
qed

lemma login_alice_initial:
  "login okProvider prodEngine (Credential alice) initial =
     (Resolved (Connection aliceConn), loggedIn)"
  by (simp add: login_defs Let_def toStr_def hasCache_def setCache_def getCache_def okProvider_def
        prodEngine_def alice_def initial_def loggedIn_def aliceConn_def)

theorem login_memoized_witness:
  "username aliceWrong = username alice \<and>
   login okProvider prodEngine (Credential alice) initial =
     (Resolved (Connection aliceConn), loggedIn) \<and>
   cacheData loggedIn (''con:'' @ username alice) = Some (Connection aliceConn) \<and>
   \<not> hasCache (''con:'' @ username alice) (cacheData initial) \<and>
   requests loggedIn = requests initial @
     [Connect (defaultLoginUrl prodEngine) (Some (username alice)) (Some (password alice))] \<and>
   fst (login okProvider prodEngine (Credential aliceWrong)
          (run okProvider prodEngine [QueryCall ''SELECT Id FROM Account''] loggedIn)) =
     Resolved (Connection aliceConn) \<and>
   connects_for (Some (username alice))
     (requests (run okProvider prodEngine [QueryCall ''SELECT Id FROM Account''] loggedIn)) =
     connects_for (Some (username alice)) (requests loggedIn)"
proof -
  have h1: "username aliceWrong = username alice"
    by (simp add: alice_def aliceWrong_def)
  have h2: "\<not> hasCache (''con:'' @ username alice) (cacheData initial)"
    by (simp add: hasCache_def initial_def)
  show ?thesis
    using h1 h2 login_alice_initial
      login_memoized [OF h1 login_alice_initial, of "[QueryCall ''SELECT Id FROM Account'']"]
    by simp
qed

text \<open>
  C4, as stated, fails when the promise that \<open>conn.login\<close> returns is rejected: the
  \<open>await\<close> throws, \<open>login\<close> is rejected with the vendor's error, and nothing is
  stored under \<open>con:username\<close>.
\<close>

theorem login_rejects_with_connect:
  "fst (login failingProvider prodEngine (Credential alice) initial) =
     Rejected (Err (ProviderError ''INVALID_LOGIN'')) \<and>
   \<not> hasCache ''con:a''
     (cacheData (snd (login failingProvider prodEngine (Credential alice) initial))) \<and>
   console (snd (login failingProvider prodEngine (Credential alice) initial)) =
     [Err (ProviderError ''INVALID_LOGIN'')]"
  by (simp add: login_defs Let_def toStr_def hasCache_def setCache_def
        failingProvider_def prodEngine_def alice_def initial_def)

text \<open>
  C4, as amended. No session is cached for the user name and the vendor's login hands
  an error to the callback. If the awaited \<open>conn.login\<close> completes, \<open>login\<close> does
  not reject: the error is printed with \<open>console.error\<close>, the connection object (whose
  \<open>userInfo\<close> is whatever the vendor left, possibly nothing) is stored under
  \<open>con:username\<close>, and that object is the value returned. If the awaited
  \<open>conn.login\<close> is rejected, \<open>login\<close> is rejected with that error after the one
  connect request, and nothing is stored under \<open>con:username\<close>.
\<close>

theorem login_on_provider_failure:
  assumes "\<not> hasCache (''con:'' @ username c) (cacheData s)"
    and "loginErr (conn_login P (length (requests s)) (defaultLoginUrl E)
           (Some (username c)) (Some (password c))) = Some err"
  shows "(loginRejects (conn_login P (length (requests s)) (defaultLoginUrl E)
            (Some (username c)) (Some (password c))) = None \<longrightarrow>
          (\<exists>conn s'. login P E (Credential c) s = (Resolved (Connection conn), s') \<and>
             console s' = console s @ [Err err] \<and>
             cacheData s' (''con:'' @ username c) = Some (Connection conn) \<and>
             getCache (''con:'' @ username c) (cacheData s') = Connection conn \<and>
             userInfo conn = sessUserInfo (conn_login P (length (requests s))
                (defaultLoginUrl E) (Some (username c)) (Some (password c))))) \<and>
         (loginRejects (conn_login P (length (requests s)) (defaultLoginUrl E)
            (Some (username c)) (Some (password c))) = Some e \<longrightarrow>
          (\<exists>s'. login P E (Credential c) s = (Rejected (Err e), s') \<and>
             console s' = console s @ [Err err] \<and>
             \<not> hasCache (''con:'' @ username c) (cacheData s') \<and>
             requests s' = requests s @
               [Connect (defaultLoginUrl E) (Some (username c)) (Some (password c))]))"
  using assms
  by (simp add: login_miss Let_def setCache_apply getCache_setCache_same hasCache_setCache)

theorem login_on_provider_failure_witness:
  "\<not> hasCache (''con:'' @ username alice) (cacheData initial) \<and>
   loginErr (conn_login callbackProvider (length (requests initial))
     (defaultLoginUrl prodEngine) (Some (username alice)) (Some (password alice))) =
     Some (ProviderError ''INVALID_LOGIN'') \<and>
   loginRejects (conn_login callbackProvider (length (requests initial))
     (defaultLoginUrl prodEngine) (Some (username alice)) (Some (password alice))) = None \<and>
   (\<exists>conn s'. login callbackProvider prodEngine (Credential alice) initial =
        (Resolved (Connection conn), s') \<and>
      console s' = console initial @ [Err (ProviderError ''INVALID_LOGIN'')] \<and>
      cacheData s' (''con:'' @ username alice) = Some (Connection conn) \<and>
      userInfo conn = None) \<and>
   loginRejects (conn_login failingProvider (length (requests initial))
     (defaultLoginUrl prodEngine) (Some (username alice)) (Some (password alice))) =
     Some (ProviderError ''INVALID_LOGIN'') \<and>
   (\<exists>s'. login failingProvider prodEngine (Credential alice) initial =
        (Rejected (Err (ProviderError ''INVALID_LOGIN'')), s') \<and>
      \<not> hasCache (''con:'' @ username alice) (cacheData s'))"
proof -
  have h1: "\<not> hasCache (''con:'' @ username alice) (cacheData initial)"
    by (simp add: hasCache_def initial_def)
  have h2: "loginErr (conn_login callbackProvider (length (requests initial))
           (defaultLoginUrl prodEngine) (Some (username alice)) (Some (password alice))) =
           Some (ProviderError ''INVALID_LOGIN'')"
    by (simp add: callbackProvider_def)
  have h3: "loginRejects (conn_login callbackProvider (length (requests initial))
           (defaultLoginUrl prodEngine) (Some (username alice)) (Some (password alice))) = None"
    "sessUserInfo (conn_login callbackProvider (length (requests initial))
           (defaultLoginUrl prodEngine) (Some (username alice)) (Some (password alice))) = None"
    by (simp_all add: callbackProvider_def)
  have h4: "loginErr (conn_login failingProvider (length (requests initial))
           (defaultLoginUrl prodEngine) (Some (username alice)) (Some (password alice))) =
           Some (ProviderError ''INVALID_LOGIN'')"
    "loginRejects (conn_login failingProvider (length (requests initial))
           (defaultLoginUrl prodEngine) (Some (username alice)) (Some (password alice))) =
           Some (ProviderError ''INVALID_LOGIN'')"
    by (simp_all add: failingProvider_def)
  have a: "\<exists>conn s'. login callbackProvider prodEngine (Credential alice) initial =
        (Resolved (Connection conn), s') \<and>
      console s' = console initial @ [Err (ProviderError ''INVALID_LOGIN'')] \<and>
      cacheData s' (''con:'' @ username alice) = Some (Connection conn) \<and>
      userInfo conn = None"
    using login_on_provider_failure [OF h1 h2] h3 by auto
  have b: "\<exists>s'. login failingProvider prodEngine (Credential alice) initial =
        (Rejected (Err (ProviderError ''INVALID_LOGIN'')), s') \<and>
      \<not> hasCache (''con:'' @ username alice) (cacheData s')"
    using login_on_provider_failure [OF h1 h4(1),
      of "ProviderError ''INVALID_LOGIN''"] h4(2) by auto
  show ?thesis using h1 h2 h3(1) h4(2) a b by blast
qed

section \<open>The current session\<close>

lemma login_stable:
  assumes "session_of s = Some v"
  shows "login P E (getCache ''currentCredentials'' (cacheData s)) s = (Resolved v, s)"
proof -
  obtain cred where C: "cacheData s ''currentCredentials'' = Some cred"
    using assms by (auto simp: session_of_def split: option.splits)
  then obtain u where U: "prop_username cred = Inr u" "cacheData s (''con:'' @ toStr u) = Some v"
    using assms by (auto simp: session_of_def split: sum.splits)
  have G: "getCache ''currentCredentials'' (cacheData s) = cred"
    using C by (simp add: getCache_def)
  have S: "setCache ''currentCredentials'' cred (cacheData s) = cacheData s"
    using C by (auto simp: setCache_def)
  have K: "getCache (''con:'' @ toStr u) (cacheData s) = v"
    using U(2) by (simp add: getCache_def)
  show ?thesis
    unfolding G using U K by (simp add: login_defs Let_def S hasCache_def)
qed

lemma login_establishes:
  assumes "login P E cred s = (Resolved v, s1)"
  shows "session_of s1 = Some v"
  using assms
  by (auto simp: login_defs Let_def session_of_def setCache_apply hasCache_def getCache_def
      split: sum.splits if_splits option.splits)

lemma loggedIn_session: "session_of loggedIn = Some (Connection aliceConn)"
  by (simp add: session_of_def loggedIn_def alice_def toStr_def)

lemma session_of_cong: "cacheData s' = cacheData s \<Longrightarrow> session_of s' = session_of s"
  by (auto simp: session_of_def split: option.splits sum.splits)

lemma session_of_other_key:
  assumes "session_of s = Some v" and "\<not> hasCache k (cacheData s)"
  shows "session_of (s\<lparr>requests := rs, cacheData := setCache k w (cacheData s)\<rparr>) = Some v"
  using assms
  by (auto simp: session_of_def setCache_apply hasCache_def split: option.splits sum.splits)

lemma aliceConn_userInfo: "userInfo aliceConn = Some \<lparr>userId = ''005''\<rparr>"
  by (simp add: aliceConn_def)

section \<open>Claims about the login URL, the record operations and the query\<close>



lemma record_operation_outcome:
  assumes "login P E (getCache ''currentCredentials'' (cacheData s)) s =
             (Resolved (Connection c), s1)"
  shows "fst (insert_records P E recs ob s) =
           saveCallback (conn_create P (length (requests s1)) c ob recs)"
    and "fst (update P E recs ob s) =
           saveCallback (conn_update P (length (requests s1)) c ob recs)"
    and "fst (upsert P E recs ob ext s) =
           saveCallback (conn_upsert P (length (requests s1)) c ob recs ext)"
    and "fst (delete P E recs ob s) =
           saveCallback (conn_destroy P (length (requests s1)) c ob recs)"
  using assms
  by (simp_all add: insert_records_def update_def upsert_def delete_def as_connection_def)

text \<open>
  C5. The claim says that a record operation resolves with the vendor's save result
  whenever the vendor reports neither an error nor \<open>success = false\<close>. For an array
  of records, the payload that the doc comments of \<open>insert\<close>, \<open>update\<close> and
  \<open>upsert\<close> name, the vendor answers with an array of save results; the callback
  reads \<open>ret.success\<close> of the array, which is \<open>undefined\<close>, and rejects with
  \<open>null\<close> although every record was saved. The same record passed alone resolves.
\<close>

theorem record_array_always_rejects:
  "conn_create okProvider (length (requests loggedIn)) aliceConn ''Account''
     (Records [[(''Name'', ''Acme'')]]) = Inr (Many [okSave]) \<and>
   success okSave \<and>
   fst (insert_records okProvider prodEngine (Records [[(''Name'', ''Acme'')]]) ''Account''
          loggedIn) = Rejected Null \<and>
   fst (update okProvider prodEngine (Records [[(''Id'', ''001''), (''Name'', ''Acme'')]])
          ''Account'' loggedIn) = Rejected Null \<and>
   fst (upsert okProvider prodEngine (Records [[(''Ext'', ''7''), (''Name'', ''Acme'')]])
          ''Account'' ''Ext'' loggedIn) = Rejected Null \<and>
   fst (delete okProvider prodEngine (Records [[(''Id'', ''001'')]]) ''Account'' loggedIn) =
     Rejected Null \<and>
   fst (insert_records okProvider prodEngine (Record [(''Name'', ''Acme'')]) ''Account''
          loggedIn) = Resolved (SaveResult okSave)"
proof -
  have h: "login okProvider prodEngine (getCache ''currentCredentials'' (cacheData loggedIn))
     loggedIn = (Resolved (Connection aliceConn), loggedIn)"
    using loggedIn_session by (rule login_stable)
  have c: "\<And>t c ob r. conn_create okProvider t c ob r = Inr (saved r)"
    "\<And>t c ob r. conn_update okProvider t c ob r = Inr (saved r)"
    "\<And>t c ob r x. conn_upsert okProvider t c ob r x = Inr (saved r)"
    "\<And>t c ob r. conn_destroy okProvider t c ob r = Inr (saved r)"
    by (simp_all add: okProvider_def)
  show ?thesis
    unfolding record_operation_outcome [OF h] c
    by (simp add: saved_def saveCallback_def okSave_def)
qed

lemma query_session:
  assumes "session_of s = Some (Connection c)"
  shows "requests (snd (query P E q s)) = requests s @ [Query (handle c) q] \<and>
         cacheData (snd (query P E q s)) = cacheData s \<and>
         session_of (snd (query P E q s)) = Some (Connection c)"
  using assms
  by (auto simp: query_def login_stable as_connection_def Let_def session_of_def
        split: sum.splits option.splits)

lemma run_queries:
  "session_of s = Some (Connection c) \<Longrightarrow>
   requests (run P E (map QueryCall qs) s) = requests s @ map (Query (handle c)) qs \<and>
   cacheData (run P E (map QueryCall qs) s) = cacheData s"
proof (induction qs arbitrary: s)
  case Nil
  then show ?case by simp
next
  case (Cons q qs)
  have Q: "requests (snd (query P E q s)) = requests s @ [Query (handle c) q]"
    "cacheData (snd (query P E q s)) = cacheData s"
    "session_of (snd (query P E q s)) = Some (Connection c)"
    using query_session [OF Cons.prems] by simp_all
  show ?case using Cons.IH [OF Q(3)] Q(1,2) by simp
qed

text \<open>
  C9, as amended. Whenever the session resolves to a connection, an invocation of
  \<open>query\<close> sends exactly one query request, with the SOQL string it was given; the
  session resolution sends no query request, and the query leaves the cache as the
  session resolution left it. With a session already cached, any sequence of query calls
  sends one request per call, in order, equal strings included, and leaves the cache
  untouched.
\<close>

theorem query_not_memoized:
  "(login P E (getCache ''currentCredentials'' (cacheData s)) s =
        (Resolved (Connection c), s1) \<longrightarrow>
      requests (snd (query P E q s)) = requests s1 @ [Query (handle c) q] \<and>
      filter is_query (requests s1) = filter is_query (requests s) \<and>
      cacheData (snd (query P E q s)) = cacheData s1) \<and>
   (session_of s = Some (Connection c) \<longrightarrow>
      requests (run P E (map QueryCall qs) s) = requests s @ map (Query (handle c)) qs \<and>
      cacheData (run P E (map QueryCall qs) s) = cacheData s)"
proof (intro conjI impI)
  assume L: "login P E (getCache ''currentCredentials'' (cacheData s)) s =
        (Resolved (Connection c), s1)"
  show "requests (snd (query P E q s)) = requests s1 @ [Query (handle c) q]"
    using L by (simp add: query_def as_connection_def Let_def split: sum.splits)
  show "cacheData (snd (query P E q s)) = cacheData s1"
    using L by (simp add: query_def as_connection_def Let_def split: sum.splits)
  show "filter is_query (requests s1) = filter is_query (requests s)"
    using L by (auto simp: login_defs Let_def split: sum.splits if_splits option.splits)
next
  assume "session_of s = Some (Connection c)"
  then show "requests (run P E (map QueryCall qs) s) = requests s @ map (Query (handle c)) qs"
    using run_queries by blast
next
  assume "session_of s = Some (Connection c)"
  then show "cacheData (run P E (map QueryCall qs) s) = cacheData s"
    using run_queries by blast
qed

theorem query_not_memoized_witness:
  "session_of loggedIn = Some (Connection aliceConn) \<and>
   requests (run okProvider prodEngine
      [QueryCall ''SELECT Id FROM Account'', QueryCall ''SELECT Id FROM Contact'',
       QueryCall ''SELECT Id FROM Account''] loggedIn) =
     requests loggedIn @ [Query 0 ''SELECT Id FROM Account'', Query 0 ''SELECT Id FROM Contact'',
       Query 0 ''SELECT Id FROM Account''] \<and>
   requests (snd (query okProvider prodEngine ''SELECT Id FROM Account'' loggedIn)) =
     requests loggedIn @ [Query 0 ''SELECT Id FROM Account'']"
proof -
  have h: "login okProvider prodEngine (getCache ''currentCredentials'' (cacheData loggedIn))
     loggedIn = (Resolved (Connection aliceConn), loggedIn)"
    using loggedIn_session by (rule login_stable)
  have k: "handle aliceConn = 0" by (simp add: aliceConn_def)
  show ?thesis
    using h loggedIn_session k
      query_not_memoized [of okProvider prodEngine loggedIn aliceConn loggedIn
        "''SELECT Id FROM Account''"
        "[''SELECT Id FROM Account'', ''SELECT Id FROM Contact'', ''SELECT Id FROM Account'']"]
    by simp
qed

text \<open>
  C9, as stated, fails before any login: \<open>query\<close> is rejected while resolving the
  session and no request reaches the vendor.
\<close>

theorem query_unauthenticated_no_call:
  "requests (snd (query okProvider prodEngine ''SELECT Id FROM Account'' initial)) = [] \<and>
   fst (query okProvider prodEngine ''SELECT Id FROM Account'' initial) =
     Rejected (Err (TypeError ''Cannot read properties of undefined''))"
  by (simp add: query_def login_defs getCache_def initial_def object_prototype_names_def)

text \<open>
  C6. The claim says that the rejection value of \<open>query\<close> is the vendor's error
  object. The source rejects with the value of \<open>console.error(err)\<close>: the error is
  printed and the promise is rejected with \<open>undefined\<close>.
\<close>

theorem query_rejects_with_undefined:
  "query refusingProvider prodEngine ''SELECT Id FROM Account'' loggedIn =
     (Rejected Undefined,
      loggedIn\<lparr>requests := requests loggedIn @ [Query 0 ''SELECT Id FROM Account''],
               console := [Err (ProviderError ''MALFORMED_QUERY'')]\<rparr>)"
  by (simp add: query_def login_stable [OF loggedIn_session] as_connection_def Let_def
        refusingProvider_def aliceConn_def) (simp add: loggedIn_def)

section \<open>Claims about the describe operations\<close>

lemma getAllObject_session:
  assumes "session_of s = Some (Connection c)" and "userInfo c = Some u"
  shows "getAllObject P E s =
     (if \<not> hasCache (''objectList:'' @ userId u) (cacheData s) then
        (case conn_describeGlobal P (length (requests s)) c of
           Inl err \<Rightarrow>
             (Rejected (Err err),
              s\<lparr>requests := requests s @ [DescribeGlobal (handle c)],
                uncaught := uncaught s @ [TypeError ''Cannot read properties of undefined'']\<rparr>)
         | Inr sobjects \<Rightarrow>
             (Resolved (SObjects sobjects),
              s\<lparr>requests := requests s @ [DescribeGlobal (handle c)],
                cacheData := setCache (''objectList:'' @ userId u) (SObjects sobjects)
                               (cacheData s)\<rparr>))
      else (Resolved (getCache (''objectList:'' @ userId u) (cacheData s)), s))"
  using assms
  by (simp add: getAllObject_def login_stable conn_userId_def Let_def split: sum.splits)

lemma getAllFields_session:
  assumes "session_of s = Some (Connection c)" and "userInfo c = Some u"
  shows "getAllFields P E n s =
     (if \<not> hasCache (''objectFields:'' @ n @ '':'' @ userId u) (cacheData s) then
        (case conn_describe P (length (requests s)) c n of
           Inl err \<Rightarrow>
             (Rejected (Err err),
              s\<lparr>requests := requests s @ [Describe (handle c) n],
                uncaught := uncaught s @ [TypeError ''Cannot read properties of undefined'']\<rparr>)
         | Inr meta \<Rightarrow>
             (Resolved (Fields (metaFields meta)),
              s\<lparr>requests := requests s @ [Describe (handle c) n],
                cacheData := setCache (''objectFields:'' @ n @ '':'' @ userId u)
                               (Fields (metaFields meta)) (cacheData s)\<rparr>))
      else (Resolved (getCache (''objectFields:'' @ n @ '':'' @ userId u) (cacheData s)), s))"
  using assms
  by (simp add: getAllFields_def login_stable conn_userId_def Let_def split: sum.splits)

lemma describeObject_session:
  assumes "session_of s = Some (Connection c)" and "userInfo c = Some u"
  shows "describeObject P E n s =
     (if \<not> hasCache (''objectInfo:'' @ n @ '':'' @ userId u) (cacheData s) then
        (case conn_describe P (length (requests s)) c n of
           Inl err \<Rightarrow>
             (Rejected (Err err),
              s\<lparr>requests := requests s @ [Describe (handle c) n],
                cacheData := setCache (''objectInfo:'' @ n @ '':'' @ userId u) Undefined
                               (cacheData s)\<rparr>)
         | Inr meta \<Rightarrow>
             (Resolved (Metadata meta),
              s\<lparr>requests := requests s @ [Describe (handle c) n],
                cacheData := setCache (''objectInfo:'' @ n @ '':'' @ userId u)
                               (Metadata meta) (cacheData s)\<rparr>))
      else (Resolved (getCache (''objectInfo:'' @ n @ '':'' @ userId u) (cacheData s)), s))"
  using assms
  by (simp add: describeObject_def login_stable conn_userId_def Let_def split: sum.splits)

text \<open>
  C10. The claim says that a describe error leaves no cache entry under the key. In
  \<open>describeObject\<close> it does: after \<open>reject(err)\<close> the callback goes on to
  \<open>setCache(objectInfoKey, meta)\<close> with \<open>meta\<close> undefined, so the key is cached with
  \<open>undefined\<close>, and the next \<open>describeObject\<close> of that object resolves with
  \<open>undefined\<close> without asking the vendor.
\<close>

theorem describeObject_error_is_cached:
  "\<not> hasCache ''objectInfo:Account:005'' (cacheData loggedIn) \<and>
   fst (describeObject refusingProvider prodEngine ''Account'' loggedIn) =
     Rejected (Err (ProviderError ''down'')) \<and>
   cacheData (snd (describeObject refusingProvider prodEngine ''Account'' loggedIn))
     ''objectInfo:Account:005'' = Some Undefined \<and>
   hasCache ''objectInfo:Account:005''
     (cacheData (snd (describeObject refusingProvider prodEngine ''Account'' loggedIn))) \<and>
   fst (describeObject okProvider prodEngine ''Account''
          (snd (describeObject refusingProvider prodEngine ''Account'' loggedIn))) =
     Resolved Undefined \<and>
   requests (snd (describeObject okProvider prodEngine ''Account''
          (snd (describeObject refusingProvider prodEngine ''Account'' loggedIn)))) =
     requests loggedIn @ [Describe 0 ''Account'']"
proof -
  define s2 where "s2 = loggedIn\<lparr>requests := requests loggedIn @ [Describe 0 ''Account''],
               cacheData := setCache ''objectInfo:Account:005'' Undefined (cacheData loggedIn)\<rparr>"
  have a: "\<not> hasCache ''objectInfo:Account:005'' (cacheData loggedIn)"
    by (simp add: hasCache_def loggedIn_def)
  have b: "describeObject refusingProvider prodEngine ''Account'' loggedIn =
     (Rejected (Err (ProviderError ''down'')), s2)"
    using a
    by (simp add: describeObject_session [OF loggedIn_session aliceConn_userInfo]
          refusingProvider_def s2_def) (simp add: aliceConn_def)
  have c: "session_of s2 = Some (Connection aliceConn)"
    unfolding s2_def using loggedIn_session a by (rule session_of_other_key)
  have e: "hasCache ''objectInfo:Account:005'' (cacheData s2)"
    by (simp add: s2_def hasCache_setCache)
  have d: "describeObject okProvider prodEngine ''Account'' s2 = (Resolved Undefined, s2)"
    using e
    by (simp add: describeObject_session [OF c aliceConn_userInfo])
       (simp add: s2_def getCache_setCache_same)
  have f: "cacheData s2 ''objectInfo:Account:005'' = Some Undefined"
    by (simp add: s2_def setCache_apply)
  have g: "requests s2 = requests loggedIn @ [Describe 0 ''Account'']"
    by (simp add: s2_def)
  show ?thesis
    using a e f g by (simp add: b d)
qed

text \<open>
  C3, as stated, fails when the vendor reports an error: \<open>getAllFields\<close> stores nothing
  then, and a second call with the same key sends a second describe request. Before any
  login a call sends no describe request at all.
\<close>

theorem describe_failure_asks_again:
  "\<not> hasCache ''objectFields:Account:005'' (cacheData loggedIn) \<and>
   exec refusingProvider prodEngine (GetAllFields ''Account'') loggedIn =
     (Rejected (Err (ProviderError ''down'')),
      loggedIn\<lparr>requests := requests loggedIn @ [Describe 0 ''Account''],
               uncaught := [TypeError ''Cannot read properties of undefined'']\<rparr>) \<and>
   requests (run refusingProvider prodEngine
               [GetAllFields ''Account'', GetAllFields ''Account''] loggedIn) =
     requests loggedIn @ [Describe 0 ''Account'', Describe 0 ''Account''] \<and>
   length (filter is_describe (requests (run okProvider prodEngine
               [GetAllFields ''Account''] initial))) = 0"
proof -
  define s2 where "s2 = loggedIn\<lparr>requests := requests loggedIn @ [Describe 0 ''Account''],
               uncaught := [TypeError ''Cannot read properties of undefined'']\<rparr>"
  have a: "\<not> hasCache ''objectFields:Account:005'' (cacheData loggedIn)"
    by (simp add: hasCache_def loggedIn_def)
  have b: "getAllFields refusingProvider prodEngine ''Account'' loggedIn =
     (Rejected (Err (ProviderError ''down'')), s2)"
    using a
    by (simp add: getAllFields_session [OF loggedIn_session aliceConn_userInfo]
          refusingProvider_def s2_def) (simp add: aliceConn_def loggedIn_def)
  have c: "session_of s2 = Some (Connection aliceConn)"
    using loggedIn_session session_of_cong [of s2 loggedIn] by (simp add: s2_def)
  have a2: "\<not> hasCache ''objectFields:Account:005'' (cacheData s2)"
    using a by (simp add: s2_def)
  have d: "requests (snd (getAllFields refusingProvider prodEngine ''Account'' s2)) =
     requests s2 @ [Describe 0 ''Account'']"
    using a2
    by (simp add: getAllFields_session [OF c aliceConn_userInfo] refusingProvider_def)
       (simp add: aliceConn_def)
  have e: "requests s2 = requests loggedIn @ [Describe 0 ''Account'']"
    by (simp add: s2_def)
  have f: "getAllFields okProvider prodEngine ''Account'' initial =
     (Rejected (Err (TypeError ''Cannot read properties of undefined'')), initial)"
    by (simp add: getAllFields_def login_defs getCache_def initial_def object_prototype_names_def)
  have g: "requests initial = []" by (simp add: initial_def)
  show ?thesis
    using a by (simp add: b d e f g) (simp add: s2_def)
qed

lemma session_of_frame:
  assumes "session_of s = Some v"
    and "\<forall>k. k \<noteq> key \<longrightarrow> cacheData s' k = cacheData s k"
    and "key \<noteq> ''currentCredentials''"
    and "\<forall>x. key \<noteq> ''con:'' @ x"
  shows "session_of s' = Some v"
proof -
  obtain cred where C: "cacheData s ''currentCredentials'' = Some cred"
    using assms(1) by (auto simp: session_of_def split: option.splits)
  then obtain x where X: "prop_username cred = Inr x" "cacheData s (''con:'' @ toStr x) = Some v"
    using assms(1) by (auto simp: session_of_def split: sum.splits)
  have "''currentCredentials'' \<noteq> key" using assms(3) by blast
  then have C': "cacheData s' ''currentCredentials'' = Some cred"
    using assms(2) C by metis
  have "''con:'' @ toStr x \<noteq> key" using assms(4) by metis
  then have "cacheData s' (''con:'' @ toStr x) = Some v"
    using assms(2) X(2) by metis
  then show ?thesis
    unfolding session_of_def C' using X(1) by simp
qed

lemma getAllFields_frame:
  assumes "session_of s = Some (Connection c)" and "userInfo c = Some u"
  shows "k \<noteq> ''objectFields:'' @ n @ '':'' @ userId u \<Longrightarrow>
         cacheData (snd (getAllFields P E n s)) k = cacheData s k"
    and "\<not> hasCache (''objectFields:'' @ n @ '':'' @ userId u) (cacheData s) \<Longrightarrow>
         requests (snd (getAllFields P E n s)) = requests s @ [Describe (handle c) n]"
  by (simp_all add: getAllFields_session [OF assms] setCache_apply split: sum.splits)

lemma describeObject_frame:
  assumes "session_of s = Some (Connection c)" and "userInfo c = Some u"
  shows "k \<noteq> ''objectInfo:'' @ n @ '':'' @ userId u \<Longrightarrow>
         cacheData (snd (describeObject P E n s)) k = cacheData s k"
    and "\<not> hasCache (''objectInfo:'' @ n @ '':'' @ userId u) (cacheData s) \<Longrightarrow>
         requests (snd (describeObject P E n s)) = requests s @ [Describe (handle c) n]"
  by (simp_all add: describeObject_session [OF assms] setCache_apply split: sum.splits)

lemma getAllObject_frame:
  assumes "session_of s = Some (Connection c)" and "userInfo c = Some u"
  shows "k \<noteq> ''objectList:'' @ userId u \<Longrightarrow>
         cacheData (snd (getAllObject P E s)) k = cacheData s k"
  by (simp add: getAllObject_session [OF assms] setCache_apply split: sum.splits)

lemma fields_then_info:
  assumes S: "session_of s = Some (Connection c)" and U: "userInfo c = Some u"
    and F: "\<not> hasCache (''objectFields:'' @ n @ '':'' @ userId u) (cacheData s)"
    and I: "\<not> hasCache (''objectInfo:'' @ n @ '':'' @ userId u) (cacheData s)"
  shows "requests (run P E [GetAllFields n, DescribeObject n] s) =
           requests s @ [Describe (handle c) n, Describe (handle c) n]"
proof -
  let ?s1 = "snd (getAllFields P E n s)"
  have fr: "\<forall>k. k \<noteq> ''objectFields:'' @ n @ '':'' @ userId u \<longrightarrow>
              cacheData ?s1 k = cacheData s k"
    using getAllFields_frame(1) [OF S U] by blast
  have S1: "session_of ?s1 = Some (Connection c)"
    using S fr by (rule session_of_frame) simp_all
  have I1: "\<not> hasCache (''objectInfo:'' @ n @ '':'' @ userId u) (cacheData ?s1)"
    using I fr by (simp add: hasCache_def)
  have "requests (snd (describeObject P E n ?s1)) = requests ?s1 @ [Describe (handle c) n]"
    using describeObject_frame(2) [OF S1 U I1] .
  then show ?thesis
    using getAllFields_frame(2) [OF S U F] by simp
qed

lemma info_then_fields:
  assumes S: "session_of s = Some (Connection c)" and U: "userInfo c = Some u"
    and F: "\<not> hasCache (''objectFields:'' @ n @ '':'' @ userId u) (cacheData s)"
    and I: "\<not> hasCache (''objectInfo:'' @ n @ '':'' @ userId u) (cacheData s)"
  shows "requests (run P E [DescribeObject n, GetAllFields n] s) =
           requests s @ [Describe (handle c) n, Describe (handle c) n]"
proof -
  let ?s1 = "snd (describeObject P E n s)"
  have fr: "\<forall>k. k \<noteq> ''objectInfo:'' @ n @ '':'' @ userId u \<longrightarrow>
              cacheData ?s1 k = cacheData s k"
    using describeObject_frame(1) [OF S U] by blast
  have S1: "session_of ?s1 = Some (Connection c)"
    using S fr by (rule session_of_frame) simp_all
  have F1: "\<not> hasCache (''objectFields:'' @ n @ '':'' @ userId u) (cacheData ?s1)"
    using F fr by (simp add: hasCache_def)
  have "requests (snd (getAllFields P E n ?s1)) = requests ?s1 @ [Describe (handle c) n]"
    using getAllFields_frame(2) [OF S1 U F1] .
  then show ?thesis
    using describeObject_frame(2) [OF S U I] by simp
qed

text \<open>
  C3, as amended. With a session whose user id is known: a call of \<open>getAllObject\<close>,
  \<open>getAllFields\<close> or \<open>describeObject\<close> whose key is cached returns the cached value
  and changes nothing, so no request is sent; a call whose key is absent sends exactly
  one describe request; a call that resolves leaves the value it returned under its key;
  no call touches a cache entry other than the one under its own key; an entry, once
  stored, stays as it is through every later sequence of engine calls. \<open>getAllFields\<close>
  and \<open>describeObject\<close> are memoized independently: their keys are never equal, and
  when neither key is cached, calling both for the same object, in either order, sends
  two describe requests.
\<close>

theorem describe_memoized:
  assumes "session_of s = Some (Connection c)" and "userInfo c = Some u"
  shows
   "(hasCache (''objectList:'' @ userId u) (cacheData s) \<longrightarrow>
       getAllObject P E s = (Resolved (getCache (''objectList:'' @ userId u) (cacheData s)), s)) \<and>
    (hasCache (''objectFields:'' @ n @ '':'' @ userId u) (cacheData s) \<longrightarrow>
       getAllFields P E n s =
         (Resolved (getCache (''objectFields:'' @ n @ '':'' @ userId u) (cacheData s)), s)) \<and>
    (hasCache (''objectInfo:'' @ n @ '':'' @ userId u) (cacheData s) \<longrightarrow>
       describeObject P E n s =
         (Resolved (getCache (''objectInfo:'' @ n @ '':'' @ userId u) (cacheData s)), s)) \<and>
    (\<not> hasCache (''objectList:'' @ userId u) (cacheData s) \<longrightarrow>
       requests (snd (getAllObject P E s)) = requests s @ [DescribeGlobal (handle c)]) \<and>
    (\<not> hasCache (''objectFields:'' @ n @ '':'' @ userId u) (cacheData s) \<longrightarrow>
       requests (snd (getAllFields P E n s)) = requests s @ [Describe (handle c) n]) \<and>
    (\<not> hasCache (''objectInfo:'' @ n @ '':'' @ userId u) (cacheData s) \<longrightarrow>
       requests (snd (describeObject P E n s)) = requests s @ [Describe (handle c) n]) \<and>
    (fst (getAllObject P E s) = Resolved v \<longrightarrow>
       cacheData (snd (getAllObject P E s)) (''objectList:'' @ userId u) = Some v) \<and>
    (fst (getAllFields P E n s) = Resolved v \<longrightarrow>
       cacheData (snd (getAllFields P E n s)) (''objectFields:'' @ n @ '':'' @ userId u) = Some v) \<and>
    (fst (describeObject P E n s) = Resolved v \<longrightarrow>
       cacheData (snd (describeObject P E n s)) (''objectInfo:'' @ n @ '':'' @ userId u) = Some v) \<and>
    (k \<noteq> ''currentCredentials'' \<and> cacheData s k = Some w \<longrightarrow>
       cacheData (run P E cs s) k = Some w) \<and>
    ''objectFields:'' @ n @ '':'' @ i \<noteq> ''objectInfo:'' @ n' @ '':'' @ i' \<and>
    (k' \<noteq> ''objectList:'' @ userId u \<longrightarrow>
       cacheData (snd (getAllObject P E s)) k' = cacheData s k') \<and>
    (k' \<noteq> ''objectFields:'' @ n @ '':'' @ userId u \<longrightarrow>
       cacheData (snd (getAllFields P E n s)) k' = cacheData s k') \<and>
    (k' \<noteq> ''objectInfo:'' @ n @ '':'' @ userId u \<longrightarrow>
       cacheData (snd (describeObject P E n s)) k' = cacheData s k') \<and>
    (\<not> hasCache (''objectFields:'' @ n @ '':'' @ userId u) (cacheData s) \<and>
     \<not> hasCache (''objectInfo:'' @ n @ '':'' @ userId u) (cacheData s) \<longrightarrow>
       requests (run P E [GetAllFields n, DescribeObject n] s) =
         requests s @ [Describe (handle c) n, Describe (handle c) n] \<and>
       requests (run P E [DescribeObject n, GetAllFields n] s) =
         requests s @ [Describe (handle c) n, Describe (handle c) n])"
proof (intro conjI impI)
  show "''objectFields:'' @ n @ '':'' @ i \<noteq> ''objectInfo:'' @ n' @ '':'' @ i'"
    by simp
next
  assume "k \<noteq> ''currentCredentials'' \<and> cacheData s k = Some w"
  then show "cacheData (run P E cs s) k = Some w"
    using run_keeps by blast
next
  assume "fst (getAllObject P E s) = Resolved v"
  then show "cacheData (snd (getAllObject P E s)) (''objectList:'' @ userId u) = Some v"
    by (auto simp: getAllObject_session [OF assms] setCache_apply hasCache_def getCache_def
          split: if_splits sum.splits)
next
  assume "fst (getAllFields P E n s) = Resolved v"
  then show "cacheData (snd (getAllFields P E n s))
               (''objectFields:'' @ n @ '':'' @ userId u) = Some v"
    by (auto simp: getAllFields_session [OF assms] setCache_apply hasCache_def getCache_def
          split: if_splits sum.splits)
next
  assume "fst (describeObject P E n s) = Resolved v"
  then show "cacheData (snd (describeObject P E n s))
               (''objectInfo:'' @ n @ '':'' @ userId u) = Some v"
    by (auto simp: describeObject_session [OF assms] setCache_apply hasCache_def getCache_def
          split: if_splits sum.splits)
next
  assume "k' \<noteq> ''objectList:'' @ userId u"
  then show "cacheData (snd (getAllObject P E s)) k' = cacheData s k'"
    by (rule getAllObject_frame [OF assms])
next
  assume "k' \<noteq> ''objectFields:'' @ n @ '':'' @ userId u"
  then show "cacheData (snd (getAllFields P E n s)) k' = cacheData s k'"
    by (rule getAllFields_frame(1) [OF assms])
next
  assume "k' \<noteq> ''objectInfo:'' @ n @ '':'' @ userId u"
  then show "cacheData (snd (describeObject P E n s)) k' = cacheData s k'"
    by (rule describeObject_frame(1) [OF assms])
next
  assume A: "\<not> hasCache (''objectFields:'' @ n @ '':'' @ userId u) (cacheData s) \<and>
     \<not> hasCache (''objectInfo:'' @ n @ '':'' @ userId u) (cacheData s)"
  show "requests (run P E [GetAllFields n, DescribeObject n] s) =
         requests s @ [Describe (handle c) n, Describe (handle c) n]"
    using A fields_then_info [OF assms] by blast
  show "requests (run P E [DescribeObject n, GetAllFields n] s) =
         requests s @ [Describe (handle c) n, Describe (handle c) n]"
    using A info_then_fields [OF assms] by blast
qed (simp_all add: getAllObject_session [OF assms] getAllFields_session [OF assms]
       describeObject_session [OF assms] split: sum.splits)

theorem describe_memoized_witness:
  "session_of loggedIn = Some (Connection aliceConn) \<and>
   userInfo aliceConn = Some \<lparr>userId = ''005''\<rparr> \<and>
   \<not> hasCache ''objectFields:Account:005'' (cacheData loggedIn) \<and>
   requests (snd (getAllFields okProvider prodEngine ''Account'' loggedIn)) =
     requests loggedIn @ [Describe 0 ''Account''] \<and>
   fst (getAllFields okProvider prodEngine ''Account'' loggedIn) =
     Resolved (Fields [''Id'', ''Name'']) \<and>
   cacheData (snd (getAllFields okProvider prodEngine ''Account'' loggedIn))
     ''objectFields:Account:005'' = Some (Fields [''Id'', ''Name'']) \<and>
   getAllFields failingProvider prodEngine ''Account''
       (snd (getAllFields okProvider prodEngine ''Account'' loggedIn)) =
     (Resolved (Fields [''Id'', ''Name'']),
      snd (getAllFields okProvider prodEngine ''Account'' loggedIn)) \<and>
   \<not> hasCache ''objectInfo:Account:005'' (cacheData loggedIn) \<and>
   \<not> hasCache ''objectInfo:Account:005''
     (cacheData (snd (getAllFields okProvider prodEngine ''Account'' loggedIn))) \<and>
   requests (run okProvider prodEngine [GetAllFields ''Account'', DescribeObject ''Account'']
               loggedIn) =
     requests loggedIn @ [Describe 0 ''Account'', Describe 0 ''Account'']"
proof -
  define s3 where "s3 = snd (getAllFields okProvider prodEngine ''Account'' loggedIn)"
  have a: "\<not> hasCache ''objectFields:Account:005'' (cacheData loggedIn)"
    by (simp add: hasCache_def loggedIn_def)
  have h: "handle aliceConn = 0" "userId \<lparr>userId = ''005''\<rparr> = ''005''"
    by (simp_all add: aliceConn_def)
  have g: "getAllFields okProvider prodEngine ''Account'' loggedIn =
     (Resolved (Fields [''Id'', ''Name'']),
      loggedIn\<lparr>requests := requests loggedIn @ [Describe 0 ''Account''],
               cacheData := setCache ''objectFields:Account:005'' (Fields [''Id'', ''Name''])
                              (cacheData loggedIn)\<rparr>)"
    using a
    by (simp add: getAllFields_session [OF loggedIn_session aliceConn_userInfo] h
          okProvider_def accountMeta_def)
  have r: "requests s3 = requests loggedIn @ [Describe 0 ''Account'']"
    using describe_memoized [OF loggedIn_session aliceConn_userInfo,
      where n = "''Account''" and P = okProvider and E = prodEngine] a
    by (simp add: h s3_def)
  have f: "fst (getAllFields okProvider prodEngine ''Account'' loggedIn) =
     Resolved (Fields [''Id'', ''Name''])"
    by (simp add: g)
  have st: "cacheData s3 ''objectFields:Account:005'' = Some (Fields [''Id'', ''Name''])"
    using describe_memoized [OF loggedIn_session aliceConn_userInfo,
      where n = "''Account''" and P = okProvider and E = prodEngine
        and v = "Fields [''Id'', ''Name'']"] f
    by (simp add: h s3_def)
  have c3: "session_of s3 = Some (Connection aliceConn)"
    unfolding s3_def g snd_conv using loggedIn_session a by (rule session_of_other_key)
  have hit: "getAllFields failingProvider prodEngine ''Account'' s3 =
     (Resolved (Fields [''Id'', ''Name'']), s3)"
    using describe_memoized [OF c3 aliceConn_userInfo,
      where n = "''Account''" and P = failingProvider and E = prodEngine] st
    by (simp add: h hasCache_def getCache_def)
  have b: "\<not> hasCache ''objectInfo:Account:005'' (cacheData loggedIn)"
    by (simp add: hasCache_def loggedIn_def)
  have fr: "cacheData s3 ''objectInfo:Account:005'' = cacheData loggedIn ''objectInfo:Account:005''"
    using describe_memoized [OF loggedIn_session aliceConn_userInfo,
      where n = "''Account''" and P = okProvider and E = prodEngine
        and k' = "''objectInfo:Account:005''"]
    by (simp add: h s3_def)
  have b3: "\<not> hasCache ''objectInfo:Account:005'' (cacheData s3)"
    using b fr by (simp add: hasCache_def)
  have two: "requests (run okProvider prodEngine
               [GetAllFields ''Account'', DescribeObject ''Account''] loggedIn) =
     requests loggedIn @ [Describe 0 ''Account'', Describe 0 ''Account'']"
    using describe_memoized [OF loggedIn_session aliceConn_userInfo,
      where n = "''Account''" and P = okProvider and E = prodEngine] a b
    by (simp add: h)
  show ?thesis
    using loggedIn_session aliceConn_userInfo a r f st hit b b3 two
    unfolding s3_def by simp
qed
end
